theory Spec2Isabelle
  imports Main
begin

section \<open>The instance launcher of the autoscaler (instance\_launcher.py)\<close>

text \<open>
  The development embeds \<^verbatim>\<open>InstanceLauncher._may_launch_new_instances\<close> and
  \<^verbatim>\<open>InstanceLauncher._launch_new_instances_by_type\<close> of
  \<^verbatim>\<open>python/ray/autoscaler/v2/instance_manager/instance_launcher.py\<close>.
  The launcher talks to two collaborators, the instance storage and the node provider.
  Neither class is among the sources, so both are parameters of the model: a record of
  operations on a world state \<open>'w\<close> that the launcher threads through its calls.
  What other actors do to the registry between two calls of the launcher is part of
  what an operation may do to the world. Every call of a collaborator is written to a
  trace of events, in program order, so that the calls a run makes can be stated.
\<close>

subsection \<open>Data\<close>

text \<open>
  Modelled from the spec: the generated protobuf module \<^verbatim>\<open>instance_manager_pb2\<close>
  is missing. The status enum has the members section 3 of the specification lists; the
  source names \<open>UNKNOWN\<close>, \<open>QUEUED\<close>, \<open>REQUESTED\<close>, \<open>ALLOCATED\<close> and
  \<open>ALLOCATION_FAILED\<close>.
\<close>

datatype InstanceStatus =
  UNKNOWN | QUEUED | REQUESTED | ALLOCATED | ALLOCATION_FAILED | TERMINATING | TERMINATED

text \<open>
  The source writes one value of the ray status, \<^verbatim>\<open>Instance.RAY_STATUS_UNKOWN\<close>
  (spelled so); the other members of that enum are not used and are kept as a numbered
  remainder.
\<close>

datatype RayStatus = RAY_STATUS_UNKOWN | RAY_STATUS_OTHER nat

text \<open>
  Modelled from the spec: the class \<^verbatim>\<open>CloudInstance\<close> of the node provider module is
  missing; its three attributes are the ones the launcher reads.
\<close>

record CloudInstance =
  cloud_instance_id :: string
  internal_ip :: string
  external_ip :: string

text \<open>
  Modelled from the spec: the message \<^verbatim>\<open>Instance\<close> is generated code that is
  missing. Its fields are those of section 3 of the specification: the identifier, the
  type, the status, the version, and \<open>cloud_instance_id\<close>, \<open>internal_ip\<close>,
  \<open>external_ip\<close>, with the ray status.
\<close>

record Instance =
  instance_id :: string
  instance_type :: string
  status :: InstanceStatus
  version :: int
  cloud_instance_id :: string
  internal_ip :: string
  external_ip :: string
  ray_status :: RayStatus

text \<open>
  Exceptions a run can end with: the \<^verbatim>\<open>assert\<close> of line 114
  (\<open>AssertionError\<close>), the \<^verbatim>\<open>range\<close> of line 80 called with step zero
  (\<open>ValueError\<close>), a call \<^verbatim>\<open>self._instance_storage.pop()\<close> of line 118 that
  raises (\<open>StorageError\<close>: Python's \<^verbatim>\<open>AttributeError\<close> when the storage has no
  such method, or what a \<^verbatim>\<open>pop\<close> raises when it has nothing to return), the
  assignment of line 120 to an attribute that the message does not have
  (\<open>AttributeError\<close>), and a \<^verbatim>\<open>create_nodes\<close> that raises (\<open>ProviderError\<close>).
\<close>

datatype error = AssertionError | ValueError | StorageError | AttributeError | ProviderError

text \<open>
  A run returns, raises, or is cut off because the pairing loop was given too little
  fuel (the loop of line 116 need not end).
\<close>

datatype 'a outcome = Returned 'a | Raised error | OutOfFuel

subsection \<open>The collaborators\<close>

text \<open>
  The storage as the launcher uses it. \<open>get_instances\<close> returns a dictionary, here an
  association list in iteration order (the second component of the returned pair, a storage
  version, is discarded by the caller and left out). \<open>upsert_instance\<close> returns the pair
  \<open>(success, version)\<close>. \<open>pop\<close> is the call of line 118; \<open>None\<close> stands for a
  call that raises. The registry of the specification (sections 4.1 and 6) offers
  \<^verbatim>\<open>get_instances\<close>, \<^verbatim>\<open>upsert_instance\<close> and the subscription only, so on it
  the call always raises; the general statements below hold whatever \<open>pop\<close> does, and
  the concrete runs are runs on a storage without it.
\<close>

record 'w InstanceStorage =
  get_instances :: "InstanceStatus set \<Rightarrow> 'w \<Rightarrow> (string \<times> Instance) list \<times> 'w"
  upsert_instance :: "Instance \<Rightarrow> int \<Rightarrow> 'w \<Rightarrow> (bool \<times> int) \<times> 'w"
  pop :: "'w \<Rightarrow> Instance option \<times> 'w"

text \<open>
  The node provider. \<open>create_nodes\<close> returns the created cloud instances, or \<open>None\<close>
  when the call raises.
\<close>

record 'w NodeProvider =
  create_nodes :: "string \<Rightarrow> nat \<Rightarrow> 'w \<Rightarrow> CloudInstance list option \<times> 'w"
  terminate_nodes :: "string list \<Rightarrow> 'w \<Rightarrow> 'w"

text \<open>
  The calls a run makes: the arguments, and for a call whose result the launcher reads,
  the result. \<open>Upsert_instance i e ok v\<close> is the call
  \<^verbatim>\<open>upsert_instance(i, expected_instance_version=e)\<close> answered \<open>(ok, v)\<close>;
  \<open>Submit t c\<close> hands the chunk \<open>c\<close> of type \<open>t\<close> to the launch executor.
\<close>

datatype event =
    Get_instances "InstanceStatus set"
  | Upsert_instance Instance int bool int
  | Pop "Instance option"
  | Create_nodes string nat "CloudInstance list option"
  | Terminate_nodes "string list"
  | Submit string "Instance list"

subsection \<open>The reconciliation pass: \<^verbatim>\<open>_may_launch_new_instances\<close>\<close>

text \<open>
  Lines 63 to 73: every instance read is set to \<open>QUEUED\<close> and written once with its own
  version as the expected version; on success it takes the returned version and joins
  \<^verbatim>\<open>queued_instances\<close>.
\<close>

fun queue_loop ::
  "'w InstanceStorage \<Rightarrow> Instance list \<Rightarrow> 'w \<Rightarrow> Instance list \<times> event list \<times> 'w" where
  "queue_loop st [] w = ([], [], w)"
| "queue_loop st (i # rest) w =
     (let inst = i\<lparr>status := QUEUED\<rparr>;
          ((success, ver), w1) = upsert_instance st inst (version inst) w;
          (queued, evs, w2) = queue_loop st rest w1
      in ((if success then [inst\<lparr>version := ver\<rparr>] else []) @ queued,
          Upsert_instance inst (version inst) success ver # evs, w2))"

text \<open>
  Lines 75 to 77: \<^verbatim>\<open>instances_by_type[t].append(instance)\<close> on a
  \<^verbatim>\<open>defaultdict(list)\<close>. The dictionary is an association list in insertion order of
  its keys.
\<close>

fun append_by_type ::
  "string \<Rightarrow> Instance \<Rightarrow> (string \<times> Instance list) list \<Rightarrow> (string \<times> Instance list) list" where
  "append_by_type t i [] = [(t, [i])]"
| "append_by_type t i ((k, vs) # d) =
     (if k = t then (k, vs @ [i]) # d else (k, vs) # append_by_type t i d)"

definition instances_by_type :: "Instance list \<Rightarrow> (string \<times> Instance list) list" where
  "instances_by_type queued = foldl (\<lambda>d i. append_by_type (instance_type i) i d) [] queued"

text \<open>
  \<^verbatim>\<open>range(0, n, step)\<close>: Python raises \<open>ValueError\<close> for step zero, and the range is
  empty for a negative step (as \<open>0 \<le> n\<close>).
\<close>

function range_from :: "nat \<Rightarrow> nat \<Rightarrow> nat \<Rightarrow> nat list" where
  "range_from i n step = (if 0 < step \<and> i < n then i # range_from (i + step) n step else [])"
  by pat_completeness auto
termination
  by (relation "measure (\<lambda>(i, n, step). n - i)") auto

definition py_range :: "nat \<Rightarrow> int \<Rightarrow> error + nat list" where
  "py_range n step =
     (if step = 0 then Inl ValueError
      else if step < 0 then Inr []
      else Inr (range_from 0 n (nat step)))"

text \<open>The slice \<^verbatim>\<open>xs[i:j]\<close> for indices that are not negative.\<close>

definition slice :: "'a list \<Rightarrow> nat \<Rightarrow> nat \<Rightarrow> 'a list" where
  "slice xs i j = take (j - i) (drop i xs)"

text \<open>
  Lines 80 to 90 for one type: one submission per start index, of the slice
  \<^verbatim>\<open>instances[i : min(i + max_nodes_per_request, len(instances))]\<close>.
\<close>

definition submit_type :: "int \<Rightarrow> string \<Rightarrow> Instance list \<Rightarrow> error + event list" where
  "submit_type max_nodes_per_request t instances =
     (case py_range (length instances) max_nodes_per_request of
        Inl e \<Rightarrow> Inl e
      | Inr starts \<Rightarrow>
          Inr (map (\<lambda>i. Submit t
                 (slice instances i (min (i + nat max_nodes_per_request) (length instances))))
               starts))"

text \<open>Line 79: the loop over the types; an exception ends it, the submissions made stay.\<close>

fun submit_loop :: "int \<Rightarrow> (string \<times> Instance list) list \<Rightarrow> unit outcome \<times> event list" where
  "submit_loop m [] = (Returned (), [])"
| "submit_loop m ((t, instances) # d) =
     (case submit_type m t instances of
        Inl e \<Rightarrow> (Raised e, [])
      | Inr evs \<Rightarrow> (let (out, evs') = submit_loop m d in (out, evs @ evs')))"

text \<open>The whole pass, lines 54 to 90.\<close>

definition may_launch_new_instances ::
  "'w InstanceStorage \<Rightarrow> int \<Rightarrow> 'w \<Rightarrow> unit outcome \<times> event list \<times> 'w" where
  "may_launch_new_instances st max_nodes_per_request w =
     (let (new_instances, w1) = get_instances st {UNKNOWN} w in
      if new_instances = [] then (Returned (), [Get_instances {UNKNOWN}], w1)
      else
        let (queued_instances, evs, w2) = queue_loop st (map snd new_instances) w1;
            (out, subs) = submit_loop max_nodes_per_request (instances_by_type queued_instances)
        in (out, Get_instances {UNKNOWN} # evs @ subs, w2))"

subsection \<open>Reading a trace\<close>

text \<open>The instances a pass claimed: the successful writes of status \<open>QUEUED\<close>, with the
  version the storage returned.\<close>

fun claimed :: "event list \<Rightarrow> Instance list" where
  "claimed [] = []"
| "claimed (Upsert_instance i e ok v # evs) =
     (if ok \<and> status i = QUEUED then i\<lparr>version := v\<rparr> # claimed evs else claimed evs)"
| "claimed (_ # evs) = claimed evs"

text \<open>The chunks handed to the launch executor, with their type.\<close>

fun submitted :: "event list \<Rightarrow> (string \<times> Instance list) list" where
  "submitted [] = []"
| "submitted (Submit t c # evs) = (t, c) # submitted evs"
| "submitted (_ # evs) = submitted evs"

text \<open>The writes to the storage, as (instance written, expected version).\<close>

fun upserts :: "event list \<Rightarrow> (Instance \<times> int) list" where
  "upserts [] = []"
| "upserts (Upsert_instance i e ok v # evs) = (i, e) # upserts evs"
| "upserts (_ # evs) = upserts evs"

text \<open>Whether an event is a call of the node provider.\<close>

fun provider_call :: "event \<Rightarrow> bool" where
  "provider_call (Create_nodes t n r) = True"
| "provider_call (Terminate_nodes ids) = True"
| "provider_call _ = False"

subsection \<open>One chunk: \<^verbatim>\<open>_launch_new_instances_by_type\<close>\<close>

text \<open>
  Lines 96 to 105: every instance of the chunk is set to \<open>REQUESTED\<close> and written with
  its own version as the expected version. The result is only logged: whatever it is, the
  instance takes the returned version and is appended to \<^verbatim>\<open>instances_selected\<close>.
\<close>

fun request_loop ::
  "'w InstanceStorage \<Rightarrow> Instance list \<Rightarrow> 'w \<Rightarrow> Instance list \<times> event list \<times> 'w" where
  "request_loop st [] w = ([], [], w)"
| "request_loop st (i # rest) w =
     (let inst = i\<lparr>status := REQUESTED\<rparr>;
          ((result, ver), w1) = upsert_instance st inst (version inst) w;
          (selected, evs, w2) = request_loop st rest w1
      in (inst\<lparr>version := ver\<rparr> # selected,
          Upsert_instance inst (version inst) result ver # evs, w2))"

text \<open>
  Modelled from the spec: line 120 assigns to an attribute spelled
  \<^verbatim>\<open>interal_ip\<close>. The message of section 3 has the field \<open>internal_ip\<close> and none
  of that spelling, and a protobuf message refuses the assignment to an attribute that is
  not one of its fields: the statement raises \<^verbatim>\<open>AttributeError\<close>.
\<close>

definition set_interal_ip :: "Instance \<Rightarrow> string \<Rightarrow> error + Instance" where
  "set_interal_ip instance v = Inl AttributeError"

text \<open>
  Lines 119 to 123: the assignments to the instance that \<^verbatim>\<open>pop\<close> returned, in
  the order of the source; the one of line 120 ends them.
\<close>

definition link :: "Instance \<Rightarrow> CloudInstance \<Rightarrow> error + Instance" where
  "link instance cloud_instance =
     (case set_interal_ip
             (instance\<lparr>cloud_instance_id := CloudInstance.cloud_instance_id cloud_instance\<rparr>)
             (CloudInstance.internal_ip cloud_instance) of
        Inl e \<Rightarrow> Inl e
      | Inr linked \<Rightarrow>
          Inr (linked\<lparr>external_ip := CloudInstance.external_ip cloud_instance,
                      status := ALLOCATED,
                      ray_status := RAY_STATUS_UNKOWN\<rparr>))"

text \<open>
  Lines 116 to 134, one unit of fuel per iteration. \<^verbatim>\<open>list.pop()\<close> takes the last
  element and \<^verbatim>\<open>append\<close> puts one back at the end. The instance comes from
  \<^verbatim>\<open>self._instance_storage.pop()\<close>; \<^verbatim>\<open>instances_selected\<close> is read by the loop
  condition and never changed. An exception of line 118 or of the assignments ends the
  run. The object that the storage returns is taken to be distinct from the objects of
  the chunk. The loop returns what is left of \<^verbatim>\<open>created_cloud_instances\<close>.
\<close>

fun pair_loop ::
  "nat \<Rightarrow> 'w InstanceStorage \<Rightarrow> CloudInstance list \<Rightarrow> Instance list \<Rightarrow> 'w \<Rightarrow>
   CloudInstance list outcome \<times> event list \<times> 'w" where
  "pair_loop fuel st created selected w =
     (if created \<noteq> [] \<and> selected \<noteq> [] then
        (case fuel of
           0 \<Rightarrow> (OutOfFuel, [], w)
         | Suc k \<Rightarrow>
            (let cloud_instance = last created;
                 created1 = butlast created;
                 (popped, w1) = pop st w
             in case popped of
                  None \<Rightarrow> (Raised StorageError, [Pop None], w1)
                | Some instance \<Rightarrow>
                   (case link instance cloud_instance of
                      Inl e \<Rightarrow> (Raised e, [Pop (Some instance)], w1)
                    | Inr inst \<Rightarrow>
                       (let ((result, ver), w2) = upsert_instance st inst (version inst) w1;
                            created2 =
                              (if \<not> result then created1 @ [cloud_instance] else created1);
                            (out, evs, w3) = pair_loop k st created2 selected w2
                        in (out,
                            Pop (Some instance) #
                            Upsert_instance inst (version inst) result ver # evs,
                            w3)))))
      else (Returned created, [], w))"

text \<open>
  Lines 144 to 148: every instance of \<^verbatim>\<open>instances_selected\<close> is set to
  \<open>ALLOCATION_FAILED\<close> and written; the result is dropped.
\<close>

fun fail_loop :: "'w InstanceStorage \<Rightarrow> Instance list \<Rightarrow> 'w \<Rightarrow> event list \<times> 'w" where
  "fail_loop st [] w = ([], w)"
| "fail_loop st (i # rest) w =
     (let inst = i\<lparr>status := ALLOCATION_FAILED\<rparr>;
          ((result, ver), w1) = upsert_instance st inst (version inst) w;
          (evs, w2) = fail_loop st rest w1
      in (Upsert_instance inst (version inst) result ver # evs, w2))"

text \<open>
  Lines 136 to 148, after the pairing loop: the cloud instances left over are terminated,
  then the instances selected are marked failed.
\<close>

definition settle ::
  "'w InstanceStorage \<Rightarrow> 'w NodeProvider \<Rightarrow> CloudInstance list \<Rightarrow> Instance list \<Rightarrow> 'w \<Rightarrow>
   event list \<times> 'w" where
  "settle st prov created selected w =
     (let (evs1, w1) =
            (if created \<noteq> []
             then ([Terminate_nodes (map CloudInstance.cloud_instance_id created)],
                   terminate_nodes prov (map CloudInstance.cloud_instance_id created) w)
             else ([], w));
          (evs2, w2) = (if selected \<noteq> [] then fail_loop st selected w1 else ([], w1))
      in (evs1 @ evs2, w2))"

text \<open>
  The whole procedure, lines 92 to 148. It returns \<open>0\<close> at line 108 and nothing
  (\<open>None\<close>) at its end.
\<close>

definition launch_new_instances_by_type ::
  "nat \<Rightarrow> 'w InstanceStorage \<Rightarrow> 'w NodeProvider \<Rightarrow> string \<Rightarrow> Instance list \<Rightarrow> 'w \<Rightarrow>
   int option outcome \<times> event list \<times> 'w" where
  "launch_new_instances_by_type fuel st prov t instances w =
     (let (instances_selected, evs1, w1) = request_loop st instances w in
      if instances_selected = [] then (Returned (Some 0), evs1, w1)
      else
        (let (res, w2) = create_nodes prov t (length instances_selected) w1;
             evs2 = evs1 @ [Create_nodes t (length instances_selected) res]
         in case res of
              None \<Rightarrow> (Raised ProviderError, evs2, w2)
            | Some created_cloud_instances \<Rightarrow>
                if \<not> length created_cloud_instances \<le> length instances_selected
                then (Raised AssertionError, evs2, w2)
                else
                  (case pair_loop fuel st created_cloud_instances instances_selected w2 of
                     (Returned left, evs3, w3) \<Rightarrow>
                       (let (evs4, w4) = settle st prov left instances_selected w3
                        in (Returned None, evs2 @ evs3 @ evs4, w4))
                   | (Raised e, evs3, w3) \<Rightarrow> (Raised e, evs2 @ evs3, w3)
                   | (OutOfFuel, evs3, w3) \<Rightarrow> (OutOfFuel, evs2 @ evs3, w3))))"

subsection \<open>Reading the trace of a chunk\<close>

text \<open>The cloud instances that \<^verbatim>\<open>create_nodes\<close> returned.\<close>

fun created_of :: "event list \<Rightarrow> CloudInstance list" where
  "created_of [] = []"
| "created_of (Create_nodes t n (Some cs) # evs) = cs @ created_of evs"
| "created_of (_ # evs) = created_of evs"

text \<open>The cloud instance ids linked: one for every successful write of status
  \<open>ALLOCATED\<close>.\<close>

fun linked_of :: "event list \<Rightarrow> string list" where
  "linked_of [] = []"
| "linked_of (Upsert_instance i e ok v # evs) =
     (if ok \<and> status i = ALLOCATED then cloud_instance_id i # linked_of evs else linked_of evs)"
| "linked_of (_ # evs) = linked_of evs"

text \<open>The cloud instance ids passed to \<^verbatim>\<open>terminate_nodes\<close>.\<close>

fun terminated_of :: "event list \<Rightarrow> string list" where
  "terminated_of [] = []"
| "terminated_of (Terminate_nodes ids # evs) = ids @ terminated_of evs"
| "terminated_of (_ # evs) = terminated_of evs"

text \<open>The writes of a given status, as (instance id, success).\<close>

fun writes_of :: "InstanceStatus \<Rightarrow> event list \<Rightarrow> (string \<times> bool) list" where
  "writes_of s [] = []"
| "writes_of s (Upsert_instance i e ok v # evs) =
     (if status i = s then (instance_id i, ok) # writes_of s evs else writes_of s evs)"
| "writes_of s (_ # evs) = writes_of s evs"

text \<open>The requests made to \<^verbatim>\<open>create_nodes\<close>, as (type, count).\<close>

fun create_requests :: "event list \<Rightarrow> (string \<times> nat) list" where
  "create_requests [] = []"
| "create_requests (Create_nodes t n r # evs) = (t, n) # create_requests evs"
| "create_requests (_ # evs) = create_requests evs"

subsection \<open>Scripted collaborators for concrete runs\<close>

text \<open>
  A concrete run fixes what the collaborators answer, call by call, the way a test double
  with a list of return values does. The world is the script that is left: the answers
  still to be given by \<^verbatim>\<open>get_instances\<close>, \<^verbatim>\<open>upsert_instance\<close>, the storage's
  \<^verbatim>\<open>pop\<close> and \<^verbatim>\<open>create_nodes\<close>. An exhausted script answers: no instances,
  a failed write, a \<^verbatim>\<open>pop\<close> that raises, no cloud instance created.
\<close>

record script =
  get_answers :: "(string \<times> Instance) list list"
  upsert_answers :: "(bool \<times> int) list"
  pop_answers :: "Instance option list"
  create_answers :: "CloudInstance list option list"

definition scripted_storage :: "script InstanceStorage" where
  "scripted_storage =
     \<lparr>get_instances = (\<lambda>status_filter w.
          case get_answers w of [] \<Rightarrow> ([], w) | a # rest \<Rightarrow> (a, w\<lparr>get_answers := rest\<rparr>)),
      upsert_instance = (\<lambda>i expected w.
          case upsert_answers w of
            [] \<Rightarrow> ((False, expected), w)
          | a # rest \<Rightarrow> (a, w\<lparr>upsert_answers := rest\<rparr>)),
      pop = (\<lambda>w.
          case pop_answers w of [] \<Rightarrow> (None, w) | a # rest \<Rightarrow> (a, w\<lparr>pop_answers := rest\<rparr>))\<rparr>"

text \<open>
  The scripted provider keeps the contract of the specification (section 4.2): it never
  returns more cloud instances than the count asked for.
\<close>

definition scripted_provider :: "script NodeProvider" where
  "scripted_provider =
     \<lparr>create_nodes = (\<lambda>t n w.
          case create_answers w of
            [] \<Rightarrow> (Some [], w)
          | a # rest \<Rightarrow> (map_option (take n) a, w\<lparr>create_answers := rest\<rparr>)),
      terminate_nodes = (\<lambda>ids w. w)\<rparr>"

definition make_script ::
  "(string \<times> Instance) list list \<Rightarrow> (bool \<times> int) list \<Rightarrow> Instance option list \<Rightarrow>
   CloudInstance list option list \<Rightarrow> script" where
  "make_script gs us ps cs =
     \<lparr>get_answers = gs, upsert_answers = us, pop_answers = ps, create_answers = cs\<rparr>"

text \<open>An instance record without a cloud instance, and a cloud instance.\<close>

definition make_instance :: "string \<Rightarrow> string \<Rightarrow> InstanceStatus \<Rightarrow> int \<Rightarrow> Instance" where
  "make_instance name t s v =
     \<lparr>instance_id = name, instance_type = t, status = s, version = v,
      cloud_instance_id = [], internal_ip = [], external_ip = [],
      ray_status = RAY_STATUS_UNKOWN\<rparr>"

definition make_cloud_instance :: "string \<Rightarrow> string \<Rightarrow> string \<Rightarrow> CloudInstance" where
  "make_cloud_instance name ip ext =
     \<lparr>CloudInstance.cloud_instance_id = name, CloudInstance.internal_ip = ip,
      CloudInstance.external_ip = ext\<rparr>"

definition cloud1 :: CloudInstance where
  "cloud1 = make_cloud_instance ''c1'' ''10.0.0.1'' ''34.0.0.1''"

definition cloud2 :: CloudInstance where
  "cloud2 = make_cloud_instance ''c2'' ''10.0.0.2'' ''34.0.0.2''"

definition unknown1 :: Instance where
  "unknown1 = make_instance ''i1'' ''small'' UNKNOWN 1"

definition unknown2 :: Instance where
  "unknown2 = make_instance ''i2'' ''small'' UNKNOWN 1"

definition unknown3 :: Instance where
  "unknown3 = make_instance ''i3'' ''gpu'' UNKNOWN 1"

definition queued1 :: Instance where
  "queued1 = make_instance ''i1'' ''small'' QUEUED 1"

definition queued2 :: Instance where
  "queued2 = make_instance ''i2'' ''small'' QUEUED 1"

definition unknown4 :: Instance where
  "unknown4 = make_instance ''i4'' ''small'' UNKNOWN 1"

text \<open>
  A pass over four instances of status \<open>UNKNOWN\<close>, three of type \<open>small\<close> and
  one of type \<open>gpu\<close>, whose four writes succeed.
\<close>

definition four_unknown :: script where
  "four_unknown =
     make_script
       [[(''i1'', unknown1), (''i2'', unknown2), (''i3'', unknown3), (''i4'', unknown4)]]
       [(True, 2), (True, 2), (True, 2), (True, 2)] [] []"

text \<open>
  A chunk of one instance whose write of \<open>REQUESTED\<close> succeeds; the provider creates one
  cloud instance; the storage answers no \<^verbatim>\<open>pop\<close> (the call raises).
\<close>

definition no_pop_run :: "int option outcome \<times> event list \<times> script" where
  "no_pop_run =
     launch_new_instances_by_type 10 scripted_storage scripted_provider ''small'' [queued1]
       (make_script [] [(True, 2)] [] [Some [cloud1]])"

text \<open>
  A chunk of two instances; the write of \<open>REQUESTED\<close> fails for the first (the record is
  at version 3 by then) and succeeds for the second; the provider creates nothing; the two
  later writes succeed.
\<close>

definition failed_cas_run :: "int option outcome \<times> event list \<times> script" where
  "failed_cas_run =
     launch_new_instances_by_type 10 scripted_storage scripted_provider ''small''
       [queued1, queued2]
       (make_script [] [(False, 3), (True, 2), (True, 4), (True, 3)] [] [Some []])"

text \<open>
  Scenario C of the specification: a chunk of one instance that another actor changed
  after it was queued, so that its write of \<open>REQUESTED\<close> fails. The provider is able to
  create one cloud instance.
\<close>

definition scenario_C_run :: "int option outcome \<times> event list \<times> script" where
  "scenario_C_run =
     launch_new_instances_by_type 10 scripted_storage scripted_provider ''small'' [queued1]
       (make_script [] [(False, 2)] [] [Some [cloud1]])"

text \<open>
  A chunk of two instances whose writes of \<open>REQUESTED\<close> succeed; the provider, asked for
  two nodes, creates one; the storage answers no \<^verbatim>\<open>pop\<close>.
\<close>

definition partial_run :: "int option outcome \<times> event list \<times> script" where
  "partial_run =
     launch_new_instances_by_type 10 scripted_storage scripted_provider ''small''
       [queued1, queued2]
       (make_script [] [(True, 2), (True, 2)] [] [Some [cloud1]])"

text \<open>
  The chunk of scenario D of the specification: two instances whose writes of
  \<open>REQUESTED\<close> succeed, two cloud instances created; the storage answers no
  \<^verbatim>\<open>pop\<close>.
\<close>

definition scenario_D_run :: "int option outcome \<times> event list \<times> script" where
  "scenario_D_run =
     launch_new_instances_by_type 10 scripted_storage scripted_provider ''small''
       [queued1, queued2]
       (make_script [] [(True, 2), (True, 2)] [] [Some [cloud1, cloud2]])"

text \<open>
  A chunk of two instances whose writes succeed, for which the provider creates nothing.
\<close>

definition unfulfilled_run :: "int option outcome \<times> event list \<times> script" where
  "unfulfilled_run =
     launch_new_instances_by_type 10 scripted_storage scripted_provider ''small''
       [queued1, queued2]
       (make_script [] [(True, 2), (True, 2), (True, 3), (True, 3)] [] [Some []])"

text \<open>
  A chunk of two instances whose writes succeed, with a provider asked for two cloud
  instances that has three at hand.
\<close>

definition full_chunk_run :: "int option outcome \<times> event list \<times> script" where
  "full_chunk_run =
     launch_new_instances_by_type 10 scripted_storage scripted_provider ''small''
       [queued1, queued2]
       (make_script [] [(True, 2), (True, 2)] []
          [Some [cloud1, cloud2, make_cloud_instance ''c3'' ''10.0.0.3'' ''34.0.0.3'']])"

subsection \<open>What the claims speak of\<close>

text \<open>
  The definitions of this part follow the words of the claims, not the source; the
  theorems compare the source's functions with them.

  What the storage answers when the instances read are written one after the other, each
  with status \<open>QUEUED\<close> and its own version as the expected version, every write made
  in the world that the write before left; and the world after the last of them.
\<close>

fun queued_cas_answers :: "'w InstanceStorage \<Rightarrow> Instance list \<Rightarrow> 'w \<Rightarrow> (bool \<times> int) list" where
  "queued_cas_answers st [] w = []"
| "queued_cas_answers st (i # rest) w =
     fst (upsert_instance st (i\<lparr>status := QUEUED\<rparr>) (version i) w) #
     queued_cas_answers st rest
       (snd (upsert_instance st (i\<lparr>status := QUEUED\<rparr>) (version i) w))"

fun world_after_queued_cas :: "'w InstanceStorage \<Rightarrow> Instance list \<Rightarrow> 'w \<Rightarrow> 'w" where
  "world_after_queued_cas st [] w = w"
| "world_after_queued_cas st (i # rest) w =
     world_after_queued_cas st rest
       (snd (upsert_instance st (i\<lparr>status := QUEUED\<rparr>) (version i) w))"

text \<open>
  The claimed set: the instances whose write was answered with success, in the order
  read, with status \<open>QUEUED\<close> and the version the storage returned.
\<close>

definition claimed_by_cas :: "Instance list \<Rightarrow> (bool \<times> int) list \<Rightarrow> Instance list" where
  "claimed_by_cas new answers =
     map (\<lambda>(i, ok, v). i\<lparr>status := QUEUED, version := v\<rparr>)
       (filter (\<lambda>(i, ok, v). ok) (zip new answers))"

text \<open>The writes themselves, as events: one for every instance read, with its answer.\<close>

definition cas_events :: "Instance list \<Rightarrow> (bool \<times> int) list \<Rightarrow> event list" where
  "cas_events new answers =
     map (\<lambda>(i, ok, v). Upsert_instance (i\<lparr>status := QUEUED\<rparr>) (version i) ok v)
       (zip new answers)"

text \<open>
  The instances a pass claims in the world \<open>w\<close>: those among the instances that
  \<^verbatim>\<open>get_instances\<close> returns for the filter \<open>UNKNOWN\<close> whose write the storage
  answers with success.
\<close>

definition pass_claimed :: "'w InstanceStorage \<Rightarrow> 'w \<Rightarrow> Instance list" where
  "pass_claimed st w =
     claimed_by_cas (map snd (fst (get_instances st {UNKNOWN} w)))
       (queued_cas_answers st (map snd (fst (get_instances st {UNKNOWN} w)))
          (snd (get_instances st {UNKNOWN} w)))"

text \<open>The writes of a trace as (instance id, status written), in order.\<close>

fun targets :: "event list \<Rightarrow> (string \<times> InstanceStatus) list" where
  "targets [] = []"
| "targets (Upsert_instance i e ok v # evs) = (instance_id i, status i) # targets evs"
| "targets (_ # evs) = targets evs"


declare range_from.simps [simp del]
declare pair_loop.simps [simp del]

section \<open>Properties of the reconciliation pass\<close>

subsection \<open>The claiming loop\<close>

lemma queue_loop_claimed:
  "fst (queue_loop st new w) = claimed (fst (snd (queue_loop st new w)))"
  by (induction new arbitrary: w) (simp_all add: Let_def case_prod_beta)

lemma queue_loop_upserts:
  "upserts (fst (snd (queue_loop st new w))) =
   map (\<lambda>i. (i\<lparr>status := QUEUED\<rparr>, version i)) new"
  by (induction new arbitrary: w) (simp_all add: Let_def case_prod_beta)

lemma queue_loop_by_cas:
  "fst (queue_loop st new w) = claimed_by_cas new (queued_cas_answers st new w)"
proof (induction new arbitrary: w)
  case Nil
  show ?case by (simp add: claimed_by_cas_def)
next
  case (Cons i new)
  obtain ok v w1 where u: "upsert_instance st (i\<lparr>status := QUEUED\<rparr>) (version i) w = ((ok, v), w1)"
    by (cases "upsert_instance st (i\<lparr>status := QUEUED\<rparr>) (version i) w") auto
  from Cons [of w1] show ?case by (simp add: u claimed_by_cas_def Let_def case_prod_beta)
qed

lemma queue_loop_events:
  "fst (snd (queue_loop st new w)) = cas_events new (queued_cas_answers st new w)"
proof (induction new arbitrary: w)
  case Nil
  show ?case by (simp add: cas_events_def)
next
  case (Cons i new)
  obtain ok v w1 where u: "upsert_instance st (i\<lparr>status := QUEUED\<rparr>) (version i) w = ((ok, v), w1)"
    by (cases "upsert_instance st (i\<lparr>status := QUEUED\<rparr>) (version i) w") auto
  from Cons [of w1] show ?case by (simp add: u cas_events_def Let_def case_prod_beta)
qed

lemma queue_loop_world:
  "snd (snd (queue_loop st new w)) = world_after_queued_cas st new w"
  by (induction new arbitrary: w) (simp_all add: Let_def case_prod_beta)

lemma length_queued_cas_answers: "length (queued_cas_answers st new w) = length new"
  by (induction new arbitrary: w) simp_all

lemma upserts_append: "upserts (a @ b) = upserts a @ upserts b"
  by (induction a rule: upserts.induct) simp_all

lemma claimed_append: "claimed (a @ b) = claimed a @ claimed b"
  by (induction a rule: claimed.induct) simp_all

lemma upserts_map_Submit: "upserts (map (\<lambda>j. Submit t (f j)) js) = []"
  by (induction js) simp_all

lemma claimed_map_Submit: "claimed (map (\<lambda>j. Submit t (f j)) js) = []"
  by (induction js) simp_all

lemma submit_loop_writes_nothing:
  "upserts (snd (submit_loop m d)) = [] \<and> claimed (snd (submit_loop m d)) = []"
proof (induction d)
  case Nil
  show ?case by simp
next
  case (Cons p d)
  obtain t xs where p: "p = (t, xs)" by (cases p)
  show ?case
  proof (cases "submit_type m t xs")
    case (Inl e)
    then show ?thesis by (simp add: p)
  next
    case (Inr evs)
    then have "upserts evs = [] \<and> claimed evs = []"
      by (auto simp: submit_type_def upserts_map_Submit claimed_map_Submit split: sum.splits)
    then show ?thesis
      using Cons Inr by (simp add: p case_prod_beta upserts_append claimed_append)
  qed
qed

lemma pass_upserts:
  "upserts (fst (snd (may_launch_new_instances st m w))) =
   map (\<lambda>i. (i\<lparr>status := QUEUED\<rparr>, version i))
     (map snd (fst (get_instances st {UNKNOWN} w)))"
  by (simp add: may_launch_new_instances_def case_prod_beta upserts_append
      queue_loop_upserts submit_loop_writes_nothing)

lemma pass_claimed_trace:
  "claimed (fst (snd (may_launch_new_instances st m w))) = pass_claimed st w"
proof (cases "fst (get_instances st {UNKNOWN} w) = []")
  case True
  then show ?thesis
    by (simp add: may_launch_new_instances_def case_prod_beta pass_claimed_def
        claimed_by_cas_def)
next
  case False
  then show ?thesis
    by (simp add: may_launch_new_instances_def case_prod_beta pass_claimed_def claimed_append
        submit_loop_writes_nothing queue_loop_claimed [symmetric] queue_loop_by_cas)
qed

text \<open>
  Claim C7. The claiming loop (lines 63 to 73) is compared with the answers of the
  storage itself. Its list of queued instances is exactly the instances whose write of
  status \<open>QUEUED\<close>, made with the instance's own version as the expected version, the
  storage answered with success, each with the version returned: an instance is claimed
  if and only if its write succeeded. Its calls are these writes and no other, one for
  every instance read, in order, so a write that failed is not made again; and it leaves
  the world that these writes leave. For the whole pass: the instances claimed in its
  trace are those the storage accepted among the instances \<^verbatim>\<open>get_instances\<close>
  returned, and its writes are one for each of them that was read.
\<close>

theorem queue_loop_claims_what_storage_accepts:
  "fst (queue_loop st new w) = claimed_by_cas new (queued_cas_answers st new w) \<and>
   fst (snd (queue_loop st new w)) = cas_events new (queued_cas_answers st new w) \<and>
   snd (snd (queue_loop st new w)) = world_after_queued_cas st new w \<and>
   length (queued_cas_answers st new w) = length new \<and>
   claimed (fst (snd (may_launch_new_instances st m w))) = pass_claimed st w \<and>
   upserts (fst (snd (may_launch_new_instances st m w))) =
     map (\<lambda>i. (i\<lparr>status := QUEUED\<rparr>, version i))
       (map snd (fst (get_instances st {UNKNOWN} w)))"
  by (simp add: queue_loop_by_cas queue_loop_events queue_loop_world
      length_queued_cas_answers pass_claimed_trace pass_upserts)

text \<open>
  A storage whose script refuses the second of three writes: the first and the third
  instance are claimed, the second is not, and three writes are made.
\<close>

lemma refused_write_is_not_claimed:
  "fst (queue_loop scripted_storage [unknown1, unknown2, unknown3]
         (make_script [] [(True, 2), (False, 5), (True, 2)] [] [])) =
     [unknown1\<lparr>status := QUEUED, version := 2\<rparr>, unknown3\<lparr>status := QUEUED, version := 2\<rparr>] \<and>
   queued_cas_answers scripted_storage [unknown1, unknown2, unknown3]
         (make_script [] [(True, 2), (False, 5), (True, 2)] [] []) =
     [(True, 2), (False, 5), (True, 2)]"
  by code_simp

subsection \<open>The empty snapshot\<close>

text \<open>
  Claim C10. When the storage returns no instance of status \<open>UNKNOWN\<close>, the pass returns
  after that one read: its trace is the read alone, so it writes nothing to the storage,
  submits no chunk and calls no provider.
\<close>

theorem empty_snapshot_pass_is_noop:
  "fst (get_instances st {UNKNOWN} w) = [] \<Longrightarrow>
   may_launch_new_instances st m w =
     (Returned (), [Get_instances {UNKNOWN}], snd (get_instances st {UNKNOWN} w))"
  by (simp add: may_launch_new_instances_def case_prod_beta)

theorem empty_snapshot_pass_is_noop_witness:
  "may_launch_new_instances scripted_storage 5 (make_script [] [(True, 2)] [] []) =
     (Returned (), [Get_instances {UNKNOWN}], make_script [] [(True, 2)] [] [])"
  using empty_snapshot_pass_is_noop [of scripted_storage "make_script [] [(True, 2)] [] []" 5]
  by (simp add: scripted_storage_def make_script_def)

subsection \<open>Grouping by type and chunking\<close>

lemma map_of_append_by_type:
  "map_of (append_by_type t i d) =
   (map_of d)(t \<mapsto> (case map_of d t of None \<Rightarrow> [i] | Some vs \<Rightarrow> vs @ [i]))"
  by (induction d) (auto simp: fun_eq_iff)

lemma keys_append_by_type:
  "map fst (append_by_type t i d) = (if t \<in> set (map fst d) then map fst d else map fst d @ [t])"
  by (induction d) force+

lemma distinct_append_by_type:
  "distinct (map fst d) \<Longrightarrow> distinct (map fst (append_by_type t i d))"
  by (simp add: keys_append_by_type)

lemma instances_by_type_snoc:
  "instances_by_type (q @ [i]) = append_by_type (instance_type i) i (instances_by_type q)"
  by (simp add: instances_by_type_def)

lemma distinct_instances_by_type: "distinct (map fst (instances_by_type q))"
proof (induction q rule: rev_induct)
  case Nil
  show ?case by (simp add: instances_by_type_def)
next
  case (snoc i q)
  then show ?case by (simp add: instances_by_type_snoc distinct_append_by_type)
qed

lemma map_of_instances_by_type:
  "map_of (instances_by_type q) t =
   (if filter (\<lambda>i. instance_type i = t) q = [] then None
    else Some (filter (\<lambda>i. instance_type i = t) q))"
proof (induction q arbitrary: t rule: rev_induct)
  case Nil
  show ?case by (simp add: instances_by_type_def)
next
  case (snoc i q)
  then show ?case
    by (simp add: instances_by_type_snoc map_of_append_by_type)
qed

lemma range_from_less: "j \<in> set (range_from i n m) \<Longrightarrow> j < n"
proof (induction i n m rule: range_from.induct)
  case (1 i n step)
  then show ?case
    by (subst (asm) range_from.simps) (auto split: if_splits)
qed

lemma concat_chunks:
  "0 < m \<Longrightarrow> i \<le> length xs \<Longrightarrow>
   concat (map (\<lambda>j. slice xs j (min (j + m) (length xs))) (range_from i (length xs) m)) = drop i xs"
proof (induction i "length xs" m rule: range_from.induct)
  case (1 i step)
  show ?case
  proof (cases "i < length xs")
    case True
    have "drop i xs = take step (drop i xs) @ drop (i + step) xs"
      by (metis add.commute append_take_drop_id drop_drop)
    moreover have "slice xs i (min (i + step) (length xs)) = take step (drop i xs)"
      using True by (simp add: slice_def min_def)
    moreover have "concat (map (\<lambda>j. slice xs j (min (j + step) (length xs)))
        (range_from (i + step) (length xs) step)) = drop (i + step) xs"
    proof (cases "i + step \<le> length xs")
      case True
      then show ?thesis using 1 \<open>i < length xs\<close> by simp
    next
      case False
      then show ?thesis by (subst range_from.simps) simp
    qed
    ultimately show ?thesis
      using True 1(2) by (subst range_from.simps) simp
  next
    case False
    then show ?thesis using 1(3) by (subst range_from.simps) simp
  qed
qed

lemma concat_chunks_all:
  "0 < m \<Longrightarrow>
   concat (map (\<lambda>j. slice xs j (min (j + m) (length xs))) (range_from 0 (length xs) m)) = xs"
  using concat_chunks [of m 0 xs] by simp

lemma chunk_bounds:
  "0 < m \<Longrightarrow> j < length xs \<Longrightarrow>
   slice xs j (min (j + m) (length xs)) \<noteq> [] \<and>
   length (slice xs j (min (j + m) (length xs))) \<le> m \<and>
   set (slice xs j (min (j + m) (length xs))) \<subseteq> set xs"
  by (auto simp: slice_def min_def dest: in_set_takeD in_set_dropD)


lemma submit_type_positive:
  "0 < m \<Longrightarrow> submit_type m t xs =
     Inr (map (\<lambda>j. Submit t (slice xs j (min (j + nat m) (length xs))))
            (range_from 0 (length xs) (nat m)))"
  by (simp add: submit_type_def py_range_def)

lemma submitted_append: "submitted (a @ b) = submitted a @ submitted b"
  by (induction a rule: submitted.induct) simp_all

lemma submitted_map_Submit: "submitted (map (\<lambda>j. Submit t (f j)) js) = map (\<lambda>j. (t, f j)) js"
  by (induction js) simp_all

lemma submitted_queue_loop: "submitted (fst (snd (queue_loop st new w))) = []"
  by (induction new arbitrary: w) (simp_all add: Let_def case_prod_beta)

lemma submit_loop_positive:
  "0 < m \<Longrightarrow> fst (submit_loop m d) = Returned () \<and>
     claimed (snd (submit_loop m d)) = [] \<and>
     submitted (snd (submit_loop m d)) =
       concat (map (\<lambda>(t, xs). map (\<lambda>j. (t, slice xs j (min (j + nat m) (length xs))))
                                (range_from 0 (length xs) (nat m))) d)"
proof (induction d)
  case Nil
  show ?case by simp
next
  case (Cons p d)
  obtain t xs where p: "p = (t, xs)" by (cases p)
  show ?case using Cons
    by (simp add: p submit_type_positive case_prod_beta submitted_append claimed_append
        submitted_map_Submit claimed_map_Submit)
qed

lemma chunks_of_type:
  "distinct (map fst d) \<Longrightarrow>
   concat (map snd (filter (\<lambda>s. fst s = t)
     (concat (map (\<lambda>(k, xs). map (\<lambda>j. (k, f xs j)) (g xs)) d)))) =
   (case map_of d t of None \<Rightarrow> [] | Some xs \<Rightarrow> concat (map (f xs) (g xs)))"
proof (induction d)
  case Nil
  show ?case by simp
next
  case (Cons p d)
  obtain k xs where p: "p = (k, xs)" by (cases p)
  have none: "k = t \<Longrightarrow> map_of d t = None"
    using Cons.prems by (simp add: p map_of_eq_None_iff)
  show ?case
  proof (cases "k = t")
    case True
    then show ?thesis using Cons none by (simp add: p comp_def)
  next
    case False
    then show ?thesis using Cons by (simp add: p comp_def)
  qed
qed

lemma chunks_well_formed:
  "0 < m \<Longrightarrow> list_all (\<lambda>i. instance_type i = t) xs \<Longrightarrow>
   list_all (\<lambda>(t, c). c \<noteq> [] \<and> int (length c) \<le> m \<and> list_all (\<lambda>i. instance_type i = t) c)
     (map (\<lambda>j. (t, slice xs j (min (j + nat m) (length xs)))) (range_from 0 (length xs) (nat m)))"
proof -
  assume m: "0 < m" and ty: "list_all (\<lambda>i. instance_type i = t) xs"
  have "\<And>j. j \<in> set (range_from 0 (length xs) (nat m)) \<Longrightarrow>
      slice xs j (min (j + nat m) (length xs)) \<noteq> [] \<and>
      int (length (slice xs j (min (j + nat m) (length xs)))) \<le> m \<and>
      list_all (\<lambda>i. instance_type i = t) (slice xs j (min (j + nat m) (length xs)))"
  proof -
    fix j assume "j \<in> set (range_from 0 (length xs) (nat m))"
    then have j: "j < length xs" by (rule range_from_less)
    from m have "0 < nat m" by simp
    from chunk_bounds [OF this j] ty show "slice xs j (min (j + nat m) (length xs)) \<noteq> [] \<and>
      int (length (slice xs j (min (j + nat m) (length xs)))) \<le> m \<and>
      list_all (\<lambda>i. instance_type i = t) (slice xs j (min (j + nat m) (length xs)))"
      using m by (auto simp: list_all_iff)
  qed
  then show ?thesis by (simp add: list_all_iff)
qed

lemma groups_typed:
  "(t, xs) \<in> set (instances_by_type q) \<Longrightarrow> list_all (\<lambda>i. instance_type i = t) xs"
proof -
  assume "(t, xs) \<in> set (instances_by_type q)"
  then have "map_of (instances_by_type q) t = Some xs"
    using distinct_instances_by_type by simp
  then have "xs = filter (\<lambda>i. instance_type i = t) q"
    by (simp add: map_of_instances_by_type split: if_splits)
  then show ?thesis by (simp add: list_all_iff)
qed

lemma all_chunks_well_formed:
  "0 < m \<Longrightarrow>
   list_all (\<lambda>(t, c). c \<noteq> [] \<and> int (length c) \<le> m \<and> list_all (\<lambda>i. instance_type i = t) c)
     (concat (map (\<lambda>(t, xs). map (\<lambda>j. (t, slice xs j (min (j + nat m) (length xs))))
                                (range_from 0 (length xs) (nat m))) (instances_by_type q)))"
proof -
  assume m: "0 < m"
  have "\<And>p. p \<in> set (instances_by_type q) \<Longrightarrow>
     list_all (\<lambda>(t, c). c \<noteq> [] \<and> int (length c) \<le> m \<and> list_all (\<lambda>i. instance_type i = t) c)
       ((\<lambda>(t, xs). map (\<lambda>j. (t, slice xs j (min (j + nat m) (length xs))))
                                (range_from 0 (length xs) (nat m))) p)"
  proof -
    fix p assume p: "p \<in> set (instances_by_type q)"
    obtain t xs where e: "p = (t, xs)" by (cases p)
    from p e have "list_all (\<lambda>i. instance_type i = t) xs" by (simp add: groups_typed)
    from chunks_well_formed [OF m this] show "list_all (\<lambda>(t, c). c \<noteq> [] \<and> int (length c) \<le> m \<and> list_all (\<lambda>i. instance_type i = t) c)
       ((\<lambda>(t, xs). map (\<lambda>j. (t, slice xs j (min (j + nat m) (length xs))))
                                (range_from 0 (length xs) (nat m))) p)"
      by (simp add: e)
  qed
  then show ?thesis unfolding list_all_iff by auto
qed

lemma chunks_partition_claimed:
  "0 < m \<Longrightarrow>
   concat (map snd (filter (\<lambda>s. fst s = t)
     (concat (map (\<lambda>(t, xs). map (\<lambda>j. (t, slice xs j (min (j + nat m) (length xs))))
                                (range_from 0 (length xs) (nat m))) (instances_by_type q))))) =
   filter (\<lambda>i. instance_type i = t) q"
proof -
  assume m: "0 < m"
  then have m': "0 < nat m" by simp
  have "concat (map snd (filter (\<lambda>s. fst s = t)
     (concat (map (\<lambda>(t, xs). map (\<lambda>j. (t, slice xs j (min (j + nat m) (length xs))))
                                (range_from 0 (length xs) (nat m))) (instances_by_type q))))) =
    (case map_of (instances_by_type q) t of None \<Rightarrow> []
     | Some xs \<Rightarrow> concat (map (\<lambda>j. slice xs j (min (j + nat m) (length xs)))
                                (range_from 0 (length xs) (nat m))))"
    using chunks_of_type [OF distinct_instances_by_type,
        of t "\<lambda>xs j. slice xs j (min (j + nat m) (length xs))"
           "\<lambda>xs. range_from 0 (length xs) (nat m)" q] by simp
  also have "\<dots> = filter (\<lambda>i. instance_type i = t) q"
    by (simp add: map_of_instances_by_type concat_chunks_all [OF m'])
  finally show ?thesis .
qed



lemma pass_shape:
  "0 < m \<Longrightarrow>
   fst (may_launch_new_instances st m w) = Returned () \<and>
   submitted (fst (snd (may_launch_new_instances st m w))) =
     concat (map (\<lambda>(t, xs). map (\<lambda>j. (t, slice xs j (min (j + nat m) (length xs))))
                              (range_from 0 (length xs) (nat m)))
               (instances_by_type (pass_claimed st w)))"
proof -
  assume m: "0 < m"
  obtain new w1 where g: "get_instances st {UNKNOWN} w = (new, w1)"
    by (cases "get_instances st {UNKNOWN} w")
  have pc: "pass_claimed st w = claimed (fst (snd (may_launch_new_instances st m w)))"
    by (simp add: pass_claimed_trace)
  show ?thesis
  proof (cases "new = []")
    case True
    then show ?thesis
      unfolding pc by (simp add: may_launch_new_instances_def g instances_by_type_def)
  next
    case False
    obtain q evs w2 where ql: "queue_loop st (map snd new) w1 = (q, evs, w2)"
      by (cases "queue_loop st (map snd new) w1")
    have q: "q = claimed evs"
      using queue_loop_claimed [of st "map snd new" w1] by (simp add: ql)
    have s: "submitted evs = []"
      using submitted_queue_loop [of st "map snd new" w1] by (simp add: ql)
    note sl = submit_loop_positive [OF m, of "instances_by_type q"]
    have r: "may_launch_new_instances st m w =
        (fst (submit_loop m (instances_by_type q)),
         Get_instances {UNKNOWN} # evs @ snd (submit_loop m (instances_by_type q)), w2)"
      using False by (simp add: may_launch_new_instances_def g ql case_prod_beta)
    have c: "claimed (Get_instances {UNKNOWN} # evs @ snd (submit_loop m (instances_by_type q))) = q"
      using sl by (simp add: claimed_append q)
    show ?thesis
      unfolding pc r fst_conv snd_conv c
      using sl by (simp add: submitted_append s)
  qed
qed

lemma pass_returns: "0 < m \<Longrightarrow> fst (may_launch_new_instances st m w) = Returned ()"
  by (simp add: pass_shape)

lemma pass_submitted:
  "0 < m \<Longrightarrow>
   submitted (fst (snd (may_launch_new_instances st m w))) =
     concat (map (\<lambda>(t, xs). map (\<lambda>j. (t, slice xs j (min (j + nat m) (length xs))))
                              (range_from 0 (length xs) (nat m)))
               (instances_by_type (pass_claimed st w)))"
  by (simp add: pass_shape)

text \<open>
  The chunks of a pass hold distinct instances when the instances that
  \<^verbatim>\<open>get_instances\<close> returned are distinct, as the values of a dictionary keyed by the
  instance identifier are.
\<close>

lemma claimed_by_cas_ids:
  "set (map instance_id (claimed_by_cas new answers)) \<subseteq> set (map instance_id new) \<and>
   (distinct (map instance_id new) \<longrightarrow> distinct (map instance_id (claimed_by_cas new answers)))"
proof (induction new arbitrary: answers)
  case Nil
  show ?case by (simp add: claimed_by_cas_def)
next
  case (Cons i new)
  show ?case
  proof (cases answers)
    case Nil
    then show ?thesis by (simp add: claimed_by_cas_def)
  next
    case (Cons a rest)
    obtain ok v where a: "a = (ok, v)" by (cases a)
    have e: "claimed_by_cas (i # new) answers =
        (if ok then [i\<lparr>status := QUEUED, version := v\<rparr>] else []) @ claimed_by_cas new rest"
      by (simp add: claimed_by_cas_def Cons a)
    from Cons.IH [of rest] show ?thesis unfolding e by auto
  qed
qed

lemma slice_distinct: "distinct (map f xs) \<Longrightarrow> distinct (map f (slice xs i j))"
  by (simp add: slice_def take_map [symmetric] drop_map [symmetric])

lemma submitted_chunks_distinct:
  "0 < m \<Longrightarrow> distinct (map instance_id (map snd (fst (get_instances st {UNKNOWN} w)))) \<Longrightarrow>
   list_all (\<lambda>(t, c). distinct (map instance_id c))
     (submitted (fst (snd (may_launch_new_instances st m w))))"
proof -
  assume m: "0 < m"
    and d: "distinct (map instance_id (map snd (fst (get_instances st {UNKNOWN} w))))"
  have dq: "distinct (map instance_id (pass_claimed st w))"
    unfolding pass_claimed_def using claimed_by_cas_ids d by blast
  have "\<And>t xs. (t, xs) \<in> set (instances_by_type (pass_claimed st w)) \<Longrightarrow>
      distinct (map instance_id xs)"
  proof -
    fix t xs assume "(t, xs) \<in> set (instances_by_type (pass_claimed st w))"
    then have "map_of (instances_by_type (pass_claimed st w)) t = Some xs"
      using distinct_instances_by_type by simp
    then have "xs = filter (\<lambda>i. instance_type i = t) (pass_claimed st w)"
      by (simp add: map_of_instances_by_type split: if_splits)
    then show "distinct (map instance_id xs)" using dq by (simp add: distinct_map_filter)
  qed
  then show ?thesis
    unfolding pass_submitted [OF m] list_all_iff
    by (auto simp: slice_distinct)
qed

text \<open>
  The pass over four instances with \<^verbatim>\<open>max_nodes_per_request = 2\<close>: the three of type
  \<open>small\<close> go out as a chunk of two and a chunk of one, the one of type \<open>gpu\<close> as a
  chunk of its own.
\<close>

lemma four_unknown_submissions:
  "submitted (fst (snd (may_launch_new_instances scripted_storage 2 four_unknown))) =
   [(''small'', [unknown1\<lparr>status := QUEUED, version := 2\<rparr>,
                 unknown2\<lparr>status := QUEUED, version := 2\<rparr>]),
    (''small'', [unknown4\<lparr>status := QUEUED, version := 2\<rparr>]),
    (''gpu'', [unknown3\<lparr>status := QUEUED, version := 2\<rparr>])]"
  by code_simp

text \<open>
  Claim C8, as stated, fails where \<^verbatim>\<open>max_nodes_per_request\<close> is not positive; the
  constructor takes any integer. With \<open>-1\<close> every \<^verbatim>\<open>range\<close> of line 80 is empty:
  the pass over the four instances claims all four, returns and submits no chunk, so the
  chunks of type \<open>small\<close> do not contain the three claimed instances of that type. With
  \<open>0\<close> the \<^verbatim>\<open>range\<close> raises \<open>ValueError\<close> after the four were claimed, and
  again nothing is submitted.
\<close>

theorem nonpositive_bound_submits_nothing:
  "fst (may_launch_new_instances scripted_storage (- 1) four_unknown) = Returned () \<and>
   submitted (fst (snd (may_launch_new_instances scripted_storage (- 1) four_unknown))) = [] \<and>
   pass_claimed scripted_storage four_unknown =
     [unknown1\<lparr>status := QUEUED, version := 2\<rparr>, unknown2\<lparr>status := QUEUED, version := 2\<rparr>,
      unknown3\<lparr>status := QUEUED, version := 2\<rparr>, unknown4\<lparr>status := QUEUED, version := 2\<rparr>] \<and>
   concat (map snd (filter (\<lambda>s. fst s = ''small'')
     (submitted (fst (snd (may_launch_new_instances scripted_storage (- 1) four_unknown)))))) \<noteq>
   filter (\<lambda>i. instance_type i = ''small'') (pass_claimed scripted_storage four_unknown) \<and>
   fst (may_launch_new_instances scripted_storage 0 four_unknown) = Raised ValueError \<and>
   submitted (fst (snd (may_launch_new_instances scripted_storage 0 four_unknown))) = []"
  by code_simp

text \<open>
  Claim C8, amended. For a positive \<^verbatim>\<open>max_nodes_per_request\<close> the pass returns, and
  of the chunks it submits: every chunk is not empty, has at most
  \<^verbatim>\<open>max_nodes_per_request\<close> instances and holds instances of the type it is submitted
  under only; and for every type, the chunks submitted under it, one after the other,
  are exactly the instances of that type that the pass claimed (those whose write the
  storage accepted), in order, none twice and none left out.
\<close>

theorem chunks_partition_claimed_by_type:
  "0 < m \<Longrightarrow>
   fst (may_launch_new_instances st m w) = Returned () \<and>
   list_all (\<lambda>(t, c). c \<noteq> [] \<and> int (length c) \<le> m \<and> list_all (\<lambda>i. instance_type i = t) c)
     (submitted (fst (snd (may_launch_new_instances st m w)))) \<and>
   (\<forall>t. concat (map snd (filter (\<lambda>s. fst s = t)
           (submitted (fst (snd (may_launch_new_instances st m w)))))) =
        filter (\<lambda>i. instance_type i = t) (pass_claimed st w))"
proof -
  assume m: "0 < m"
  show ?thesis
    unfolding pass_submitted [OF m]
    using pass_returns [OF m, of st w] all_chunks_well_formed [OF m, of "pass_claimed st w"]
      chunks_partition_claimed [OF m, of _ "pass_claimed st w"]
    by simp
qed

theorem chunks_partition_claimed_by_type_witness:
  "(0::int) < 2 \<and>
   fst (may_launch_new_instances scripted_storage 2 four_unknown) = Returned () \<and>
   list_all (\<lambda>(t, c). c \<noteq> [] \<and> int (length c) \<le> 2 \<and> list_all (\<lambda>i. instance_type i = t) c)
     (submitted (fst (snd (may_launch_new_instances scripted_storage 2 four_unknown)))) \<and>
   (\<forall>t. concat (map snd (filter (\<lambda>s. fst s = t)
           (submitted (fst (snd (may_launch_new_instances scripted_storage 2 four_unknown)))))) =
        filter (\<lambda>i. instance_type i = t) (pass_claimed scripted_storage four_unknown))"
proof -
  have h: "(0::int) < 2" by simp
  show ?thesis
    using h chunks_partition_claimed_by_type [OF h, of scripted_storage four_unknown]
    by blast
qed

section \<open>Properties of the launch of one chunk\<close>

lemma terminated_of_append: "terminated_of (a @ b) = terminated_of a @ terminated_of b"
  by (induction a rule: terminated_of.induct) simp_all

lemma created_of_append: "created_of (a @ b) = created_of a @ created_of b"
  by (induction a rule: created_of.induct) simp_all


lemma writes_of_append: "writes_of s (a @ b) = writes_of s a @ writes_of s b"
  by (induction s a rule: writes_of.induct) simp_all

lemma create_requests_append: "create_requests (a @ b) = create_requests a @ create_requests b"
  by (induction a rule: create_requests.induct) simp_all

lemma request_loop_length: "length (fst (request_loop st xs w)) = length xs"
  by (induction xs arbitrary: w) (simp_all add: Let_def case_prod_beta)

lemma request_loop_ids: "map instance_id (fst (request_loop st xs w)) = map instance_id xs"
  by (induction xs arbitrary: w) (simp_all add: Let_def case_prod_beta)

lemma request_loop_trace:
  "terminated_of (fst (snd (request_loop st xs w))) = [] \<and>
   created_of (fst (snd (request_loop st xs w))) = [] \<and>
   linked_of (fst (snd (request_loop st xs w))) = [] \<and>
   create_requests (fst (snd (request_loop st xs w))) = [] \<and>
   writes_of ALLOCATION_FAILED (fst (snd (request_loop st xs w))) = []"
  by (induction xs arbitrary: w) (simp_all add: Let_def case_prod_beta)

lemma fail_loop_trace:
  "terminated_of (fst (fail_loop st xs w)) = [] \<and>
   created_of (fst (fail_loop st xs w)) = [] \<and>
   linked_of (fst (fail_loop st xs w)) = [] \<and>
   create_requests (fst (fail_loop st xs w)) = [] \<and>
   map fst (writes_of ALLOCATION_FAILED (fst (fail_loop st xs w))) = map instance_id xs"
  by (induction xs arbitrary: w) (simp_all add: Let_def case_prod_beta)




subsection \<open>The pairing loop\<close>

lemma link_raises: "link r c = Inl AttributeError"
  by (simp add: link_def set_interal_ip_def)

text \<open>
  The loop in closed form: when it is entered, its first iteration raises, at line 118
  or at line 120; it writes nothing to the storage.
\<close>

lemma pair_loop_result:
  "pair_loop fuel st created selected w =
     (if created \<noteq> [] \<and> selected \<noteq> [] then
        (case fuel of
           0 \<Rightarrow> (OutOfFuel, [], w)
         | Suc k \<Rightarrow>
            (case fst (pop st w) of
               None \<Rightarrow> (Raised StorageError, [Pop None], snd (pop st w))
             | Some r \<Rightarrow> (Raised AttributeError, [Pop (Some r)], snd (pop st w))))
      else (Returned created, [], w))"
  by (subst pair_loop.simps)
     (simp add: link_raises case_prod_beta Let_def split: nat.splits option.splits)

lemma pair_loop_trace:
  "terminated_of (fst (snd (pair_loop fuel st created selected w))) = [] \<and>
   created_of (fst (snd (pair_loop fuel st created selected w))) = [] \<and>
   create_requests (fst (snd (pair_loop fuel st created selected w))) = [] \<and>
   linked_of (fst (snd (pair_loop fuel st created selected w))) = [] \<and>
   targets (fst (snd (pair_loop fuel st created selected w))) = [] \<and>
   writes_of s (fst (snd (pair_loop fuel st created selected w))) = []"
  by (simp add: pair_loop_result split: nat.splits option.splits)

lemma pair_loop_returned:
  "fst (pair_loop fuel st created selected w) = Returned left \<Longrightarrow>
   (left = [] \<or> selected = []) \<and> left = created \<and>
   fst (snd (pair_loop fuel st created selected w)) = [] \<and>
   snd (snd (pair_loop fuel st created selected w)) = w"
  by (auto simp: pair_loop_result split: nat.splits option.splits if_splits)

lemma pair_loop_raised:
  "fst (pair_loop fuel st created selected w) = Raised e \<Longrightarrow>
   e = StorageError \<or> e = AttributeError"
  by (auto simp: pair_loop_result split: nat.splits option.splits if_splits)

text \<open>With fuel for one iteration the loop is never cut off.\<close>

lemma pair_loop_ends:
  "fst (pair_loop (Suc k) st created selected w) \<noteq> OutOfFuel"
  by (simp add: pair_loop_result split: option.splits)

subsection \<open>What every run of a chunk does\<close>

lemma settle_nothing_left:
  "selected \<noteq> [] \<Longrightarrow> fst (settle st prov [] selected w) = fst (fail_loop st selected w)"
  by (simp add: settle_def case_prod_beta)

lemma launch_cases:
  obtains (empty) "instances = []"
      "launch_new_instances_by_type fuel st prov t instances w = (Returned (Some 0), [], w)"
  | (provider_error) sel evs1 w1 w2 where
      "instances \<noteq> []" "request_loop st instances w = (sel, evs1, w1)"
      "launch_new_instances_by_type fuel st prov t instances w =
         (Raised ProviderError, evs1 @ [Create_nodes t (length instances) None], w2)"
  | (assertion) sel evs1 w1 cs w2 where
      "instances \<noteq> []" "request_loop st instances w = (sel, evs1, w1)"
      "create_nodes prov t (length instances) w1 = (Some cs, w2)" "\<not> length cs \<le> length instances"
      "launch_new_instances_by_type fuel st prov t instances w =
         (Raised AssertionError, evs1 @ [Create_nodes t (length instances) (Some cs)], w2)"
  | (paired) sel evs1 w1 cs w2 evs3 w3 where
      "instances \<noteq> []" "request_loop st instances w = (sel, evs1, w1)" "sel \<noteq> []"
      "pair_loop fuel st cs sel w2 = (Returned [], evs3, w3)"
      "launch_new_instances_by_type fuel st prov t instances w =
         (Returned None,
          evs1 @ [Create_nodes t (length instances) (Some cs)] @ evs3 @ fst (fail_loop st sel w3),
          snd (fail_loop st sel w3))"
  | (cut) sel evs1 w1 cs w2 out evs3 w3 where
      "instances \<noteq> []" "request_loop st instances w = (sel, evs1, w1)"
      "pair_loop fuel st cs sel w2 = (out, evs3, w3)"
      "out = OutOfFuel \<or> out = Raised StorageError \<or> out = Raised AttributeError"
      "launch_new_instances_by_type fuel st prov t instances w =
         (case out of Raised e \<Rightarrow> Raised e | _ \<Rightarrow> OutOfFuel,
          evs1 @ [Create_nodes t (length instances) (Some cs)] @ evs3, w3)"
proof -
  obtain sel evs1 w1 where r: "request_loop st instances w = (sel, evs1, w1)"
    by (cases "request_loop st instances w")
  have len: "length sel = length instances"
    using request_loop_length [of st instances w] by (simp add: r)
  show ?thesis
  proof (cases "instances = []")
    case True
    then show ?thesis
      by (intro empty) (simp_all add: launch_new_instances_by_type_def)
  next
    case False
    note ne0 = False
    from False len have ne: "sel \<noteq> []" by auto
    obtain res w2 where c: "create_nodes prov t (length instances) w1 = (res, w2)"
      by (cases "create_nodes prov t (length instances) w1")
    show ?thesis
    proof (cases res)
      case None
      show ?thesis
        by (rule provider_error [OF False r])
           (simp add: launch_new_instances_by_type_def r ne c None len)
    next
      case (Some cs)
      show ?thesis
      proof (cases "length cs \<le> length instances")
        case False
        show ?thesis
          by (rule assertion [OF ne0 r c [unfolded Some] False])
             (simp add: launch_new_instances_by_type_def r ne c Some False len)
      next
        case True
        obtain out evs3 w3 where p: "pair_loop fuel st cs sel w2 = (out, evs3, w3)"
          by (cases "pair_loop fuel st cs sel w2")
        show ?thesis
        proof (cases out)
          case (Returned left)
          from pair_loop_returned [of fuel st cs sel w2 left] p Returned ne
          have l: "left = []" by simp
          show ?thesis
            by (rule paired [OF ne0 r ne p [unfolded Returned l]])
               (simp add: launch_new_instances_by_type_def r ne c Some True len p Returned l
                  settle_def case_prod_beta)
        next
          case (Raised e)
          have "e = StorageError \<or> e = AttributeError"
            using pair_loop_raised [of fuel st cs sel w2 e] p Raised by simp
          then show ?thesis
            by (intro cut [OF ne0 r p])
               (simp_all add: launch_new_instances_by_type_def r ne c Some True len p Raised)
        next
          case OutOfFuel
          show ?thesis
            by (rule cut [OF ne0 r p])
               (simp_all add: launch_new_instances_by_type_def r ne c Some True len p OutOfFuel)
        qed
      qed
    qed
  qed
qed

lemma launch_never_terminates_nodes:
  "terminated_of (fst (snd (launch_new_instances_by_type fuel st prov t instances w))) = []"
proof (cases rule: launch_cases [where fuel = fuel and st = st and prov = prov and t = t
      and instances = instances and w = w])
  case empty
  then show ?thesis by simp
next
  case (provider_error sel evs1 w1 w2)
  then show ?thesis
    using request_loop_trace [of st instances w] by (simp add: terminated_of_append)
next
  case (assertion sel evs1 w1 cs w2)
  then show ?thesis
    using request_loop_trace [of st instances w] by (simp add: terminated_of_append)
next
  case (paired sel evs1 w1 cs w2 evs3 w3)
  then show ?thesis
    using request_loop_trace [of st instances w] pair_loop_trace [of fuel st cs sel w2]
      fail_loop_trace [of st sel w3]
    by (simp add: terminated_of_append)
next
  case (cut sel evs1 w1 cs w2 out evs3 w3)
  then show ?thesis
    using request_loop_trace [of st instances w] pair_loop_trace [of fuel st cs sel w2]
    by (simp add: terminated_of_append)
qed

lemma launch_requests_whole_chunk:
  "create_requests (fst (snd (launch_new_instances_by_type fuel st prov t instances w))) =
   (if instances = [] then [] else [(t, length instances)])"
proof (cases rule: launch_cases [where fuel = fuel and st = st and prov = prov and t = t
      and instances = instances and w = w])
  case empty
  then show ?thesis by simp
next
  case (provider_error sel evs1 w1 w2)
  then show ?thesis
    using request_loop_trace [of st instances w] request_loop_length [of st instances w]
    by (auto simp: create_requests_append)
next
  case (assertion sel evs1 w1 cs w2)
  then show ?thesis
    using request_loop_trace [of st instances w] request_loop_length [of st instances w]
    by (auto simp: create_requests_append)
next
  case (paired sel evs1 w1 cs w2 evs3 w3)
  then show ?thesis
    using request_loop_trace [of st instances w] pair_loop_trace [of fuel st cs sel w2]
      fail_loop_trace [of st sel w3] request_loop_length [of st instances w]
    by (auto simp: create_requests_append)
next
  case (cut sel evs1 w1 cs w2 out evs3 w3)
  then show ?thesis
    using request_loop_trace [of st instances w] pair_loop_trace [of fuel st cs sel w2]
     request_loop_length [of st instances w]
    by (auto simp: create_requests_append)
qed

lemma returned_run_marks_whole_chunk_failed:
  "fst (launch_new_instances_by_type fuel st prov t instances w) = Returned None \<Longrightarrow>
   map fst (writes_of ALLOCATION_FAILED
     (fst (snd (launch_new_instances_by_type fuel st prov t instances w)))) =
   map instance_id instances"
proof (cases rule: launch_cases [where fuel = fuel and st = st and prov = prov and t = t
      and instances = instances and w = w])
  case (paired sel evs1 w1 cs w2 evs3 w3)
  then show ?thesis
    using request_loop_trace [of st instances w] pair_loop_trace [of fuel st cs sel w2]
      fail_loop_trace [of st sel w3] request_loop_ids [of st instances w]
    by (simp add: writes_of_append)
qed auto



text \<open>A run that returns from line 148 was given no cloud instance.\<close>

lemma returned_run_created_nothing:
  "fst (launch_new_instances_by_type fuel st prov t instances w) = Returned None \<Longrightarrow>
   created_of (fst (snd (launch_new_instances_by_type fuel st prov t instances w))) = []"
proof (cases rule: launch_cases [where fuel = fuel and st = st and prov = prov and t = t
      and instances = instances and w = w])
  case (paired sel evs1 w1 cs w2 evs3 w3)
  from pair_loop_returned [of fuel st cs sel w2 "[]"] paired(4) have "cs = []" by simp
  then show ?thesis
    using paired request_loop_trace [of st instances w]
      pair_loop_trace [of fuel st cs sel w2 ALLOCATED] fail_loop_trace [of st sel w3]
    by (simp add: created_of_append)
qed auto



subsection \<open>No write after a terminal status\<close>



text \<open>That run returns, and its writes are these.\<close>

lemma unfulfilled_run_writes:
  "fst unfulfilled_run = Returned None \<and>
   targets (fst (snd unfulfilled_run)) =
     [(''i1'', REQUESTED), (''i2'', REQUESTED),
      (''i1'', ALLOCATION_FAILED), (''i2'', ALLOCATION_FAILED)]"
  by code_simp

subsection \<open>The assertion of line 114\<close>

text \<open>
  Claim C9. If \<^verbatim>\<open>create_nodes\<close> never returns more cloud instances than the count it
  is asked for, no run of the procedure ends in the \<open>AssertionError\<close> of line 114,
  whatever the chunk, the storage and the fuel: the count asked for is the length of
  \<^verbatim>\<open>instances_selected\<close>, which is what the assertion compares with.
\<close>

theorem provider_bound_keeps_assertion:
  "(\<forall>t n w. case fst (create_nodes prov t n w) of None \<Rightarrow> True | Some cs \<Rightarrow> length cs \<le> n) \<Longrightarrow>
   fst (launch_new_instances_by_type fuel st prov t instances w) \<noteq> Raised AssertionError"
proof (cases rule: launch_cases [where fuel = fuel and st = st and prov = prov and t = t
      and instances = instances and w = w])
  case (assertion sel evs1 w1 cs w2)
  assume "\<forall>t n w. case fst (create_nodes prov t n w) of None \<Rightarrow> True | Some cs \<Rightarrow> length cs \<le> n"
  then have "case fst (create_nodes prov t (length instances) w1) of None \<Rightarrow> True
     | Some cs \<Rightarrow> length cs \<le> length instances" by blast
  with assertion show ?thesis by simp
qed auto

theorem provider_bound_keeps_assertion_witness:
  "(\<forall>t n w. case fst (create_nodes scripted_provider t n w) of
               None \<Rightarrow> True | Some cs \<Rightarrow> length cs \<le> n) \<and>
   fst full_chunk_run \<noteq> Raised AssertionError"
proof -
  have h: "\<forall>t n w. case fst (create_nodes scripted_provider t n w) of
                     None \<Rightarrow> True | Some cs \<Rightarrow> length cs \<le> n"
    by (simp add: scripted_provider_def split: list.splits option.splits)
  show ?thesis
    using h provider_bound_keeps_assertion [OF h, of 10 scripted_storage "''small''"
        "[queued1, queued2]"
        "make_script [] [(True, 2), (True, 2)] []
          [Some [cloud1, cloud2, make_cloud_instance ''c3'' ''10.0.0.3'' ''34.0.0.3'']]"]
    unfolding full_chunk_run_def by blast
qed

text \<open>That run is given two of the three cloud instances and passes the assertion.\<close>

lemma full_chunk_run_passes_assertion:
  "fst full_chunk_run = Raised StorageError \<and>
   created_of (fst (snd full_chunk_run)) = [cloud1, cloud2]"
  by code_simp

subsection \<open>Runs that depart from the specification\<close>

text \<open>
  Claim C2 (the code departs from it). The specification drops from the chunk every
  instance whose write of \<open>REQUESTED\<close> fails. The loop of lines 97 to 105 logs the
  failure and appends the instance all the same (the claiming loop of the pass, lines 69
  to 73, appends on success only). In the run below the write fails for \<open>i1\<close>; the
  provider is still asked for two nodes, and \<open>i1\<close> is written \<open>ALLOCATION_FAILED\<close> with
  the version that its failed write returned.
\<close>

theorem failed_cas_instance_stays_in_chunk:
  "fst failed_cas_run = Returned None \<and>
   fst (snd failed_cas_run) =
     [Upsert_instance (queued1\<lparr>status := REQUESTED\<rparr>) 1 False 3,
      Upsert_instance (queued2\<lparr>status := REQUESTED\<rparr>) 1 True 2,
      Create_nodes ''small'' 2 (Some []),
      Upsert_instance (queued1\<lparr>status := ALLOCATION_FAILED, version := 3\<rparr>) 3 True 4,
      Upsert_instance (queued2\<lparr>status := ALLOCATION_FAILED, version := 2\<rparr>) 2 True 3] \<and>
   create_requests (fst (snd failed_cas_run)) = [(''small'', 2)] \<and>
   writes_of ALLOCATION_FAILED (fst (snd failed_cas_run)) = [(''i1'', True), (''i2'', True)]"
  by code_simp

text \<open>
  Claim C3 (the code departs from it). In scenario C of the specification the only
  instance of the chunk fails its write of \<open>REQUESTED\<close>, and the procedure is to stop
  without a provider call. As the instance is appended all the same,
  \<^verbatim>\<open>instances_selected\<close> is not empty, line 108 is not reached, and
  \<^verbatim>\<open>create_nodes\<close> is called for one node; here it creates one.
\<close>

theorem scenario_C_calls_provider:
  "fst scenario_C_run = Raised StorageError \<and>
   fst (snd scenario_C_run) =
     [Upsert_instance (queued1\<lparr>status := REQUESTED\<rparr>) 1 False 2,
      Create_nodes ''small'' 1 (Some [cloud1]),
      Pop None] \<and>
   filter provider_call (fst (snd scenario_C_run)) =
     [Create_nodes ''small'' 1 (Some [cloud1])] \<and>
   created_of (fst (snd scenario_C_run)) = [cloud1]"
  by code_simp

text \<open>
  Claim C1 (the code departs from it). Every created cloud instance is to be linked or
  terminated. The pairing loop takes the instance from
  \<^verbatim>\<open>self._instance_storage.pop()\<close>, not from \<^verbatim>\<open>instances_selected\<close>. The
  registry of the specification has no such operation (sections 4.1 and 6 list
  \<^verbatim>\<open>get_instances\<close>, \<^verbatim>\<open>upsert_instance\<close> and the subscription), so the call
  raises: the run below ends there, after one cloud instance was created and taken off
  \<^verbatim>\<open>created_cloud_instances\<close>; it is neither linked nor passed to
  \<^verbatim>\<open>terminate_nodes\<close>.
\<close>

theorem no_pop_run_leaks_created_instance:
  "no_pop_run =
     (Raised StorageError,
      [Upsert_instance (queued1\<lparr>status := REQUESTED\<rparr>) 1 True 2,
       Create_nodes ''small'' 1 (Some [cloud1]),
       Pop None],
      make_script [] [] [] []) \<and>
   created_of (fst (snd no_pop_run)) = [cloud1] \<and>
   linked_of (fst (snd no_pop_run)) = [] \<and>
   terminated_of (fst (snd no_pop_run)) = []"
  by code_simp

text \<open>
  Claim C4 (the code departs from it). Every cloud instance is to be linked to a record
  drawn from the instances of the chunk still pending, by a write of \<open>ALLOCATED\<close>. The
  loop draws no record from \<^verbatim>\<open>instances_selected\<close>: it calls the storage's
  \<^verbatim>\<open>pop\<close>, which the registry does not have. In the run below two instances are
  pending and one cloud instance was created; the call of line 118 raises, no write of
  \<open>ALLOCATED\<close> is made and the cloud instance is linked to no record. No run makes such a
  write (lemma \<open>launch_never_writes_allocated\<close>).
\<close>

theorem partial_run_links_nothing:
  "fst partial_run = Raised StorageError \<and>
   fst (snd partial_run) =
     [Upsert_instance (queued1\<lparr>status := REQUESTED\<rparr>) 1 True 2,
      Upsert_instance (queued2\<lparr>status := REQUESTED\<rparr>) 1 True 2,
      Create_nodes ''small'' 2 (Some [cloud1]),
      Pop None] \<and>
   created_of (fst (snd partial_run)) = [cloud1] \<and>
   writes_of ALLOCATED (fst (snd partial_run)) = [] \<and>
   linked_of (fst (snd partial_run)) = []"
  by code_simp

text \<open>
  Claim C5 (the code departs from it). In scenario D two cloud instances are created for
  a chunk of two instances, and the outcome is to be one instance \<open>ALLOCATED\<close> and one
  cloud instance terminated. The run below ends at the first call of line 118: no write
  of \<open>ALLOCATED\<close> is attempted, so none can fail and line 134 puts nothing back; no
  cloud instance is terminated and no instance ends \<open>ALLOCATED\<close>. In no run at all is
  \<^verbatim>\<open>terminate_nodes\<close> called (lemma \<open>launch_never_terminates_nodes\<close>): the loop can
  only be left with \<^verbatim>\<open>created_cloud_instances\<close> empty, as
  \<^verbatim>\<open>instances_selected\<close> never shrinks.
\<close>

theorem scenario_D_terminates_nothing:
  "fst scenario_D_run = Raised StorageError \<and>
   fst (snd scenario_D_run) =
     [Upsert_instance (queued1\<lparr>status := REQUESTED\<rparr>) 1 True 2,
      Upsert_instance (queued2\<lparr>status := REQUESTED\<rparr>) 1 True 2,
      Create_nodes ''small'' 2 (Some [cloud1, cloud2]),
      Pop None] \<and>
   created_of (fst (snd scenario_D_run)) = [cloud1, cloud2] \<and>
   terminated_of (fst (snd scenario_D_run)) = [] \<and>
   writes_of ALLOCATED (fst (snd scenario_D_run)) = [] \<and>
   writes_of ALLOCATION_FAILED (fst (snd scenario_D_run)) = []"
  by code_simp

end
